theory Spec2Isabelle
  imports Complex_Main "HOL-Library.Sublist"
begin

section \<open>Values of the Go runtime\<close>

text \<open>
  The service is built for a 64-bit platform: Go's \<open>int\<close> is a 64-bit signed integer.
  Integers are modelled as \<open>int\<close>, and the one place where the code multiplies two
  request-controlled numbers wraps around explicitly (\<open>wrap64\<close>). A string is the
  sequence of its characters.
\<close>

definition wrap64 :: "int \<Rightarrow> int" where
  "wrap64 x = (x + 2 ^ 63) mod 2 ^ 64 - 2 ^ 63"

text \<open>\<open>unicode.IsSpace\<close> on the Latin-1 range: tab, LF, VT, FF, CR, space, NEL, NBSP.\<close>

definition isSpace :: "char \<Rightarrow> bool" where
  "isSpace c = (of_char c \<in> {9, 10, 11, 12, 13, 32, 133, 160 :: nat})"

text \<open>\<open>strings.TrimSpace\<close>: leading and trailing white space removed.\<close>

definition TrimSpace :: "string \<Rightarrow> string" where
  "TrimSpace s = rev (dropWhile isSpace (rev (dropWhile isSpace s)))"

definition isDigit :: "char \<Rightarrow> bool" where
  "isDigit c = (48 \<le> (of_char c :: nat) \<and> (of_char c :: nat) \<le> 57)"

definition digits_val :: "string \<Rightarrow> int" where
  "digits_val ds = foldl (\<lambda>a c. 10 * a + (int (of_char c) - 48)) 0 ds"

text \<open>
  \<open>strconv.Atoi\<close>: an optional sign, then one or more decimal digits; \<open>None\<close> is
  the error (bad syntax, or a value outside the 64-bit range).
\<close>

definition Atoi :: "string \<Rightarrow> int option" where
  "Atoi s =
     (let neg = (s \<noteq> [] \<and> hd s = CHR ''-'');
          ds = (if s \<noteq> [] \<and> (hd s = CHR ''-'' \<or> hd s = CHR ''+'') then tl s else s)
      in if ds = [] \<or> \<not> list_all isDigit ds then None
         else let v = (if neg then - digits_val ds else digits_val ds)
              in if v < - (2 ^ 63) \<or> 2 ^ 63 - 1 < v then None else Some v)"

section \<open>The data model (models/book.go)\<close>

text \<open>A \<open>time.Time\<close> read from a TIMESTAMP column: seconds on the engine's clock.\<close>

type_synonym timestamp = int

record Book =
  ID :: int
  Title :: string
  Author :: string
  PublishedYear :: int
  Available :: bool
  CreatedAt :: timestamp
  UpdatedAt :: timestamp

text \<open>\<open>CreateBookRequest\<close>; \<open>Available\<close> is a pointer, \<open>None\<close> when the field is omitted.\<close>

record CreateBookRequest =
  crTitle :: string
  crAuthor :: string
  crPublishedYear :: int
  crAvailable :: "bool option"

text \<open>\<open>UpdateBookRequest\<close>: every field is a pointer, \<open>None\<close> when not supplied.\<close>

record UpdateBookRequest =
  upTitle :: "string option"
  upAuthor :: "string option"
  upPublishedYear :: "int option"
  upAvailable :: "bool option"

record APIResponse =
  Success :: bool
  Data :: "Book option"
  Error :: string
  Message :: string

record Pagination =
  Page :: int
  Limit :: int
  Total :: int
  TotalPages :: int

text \<open>
  A slice of books is \<open>nil\<close> (\<open>None\<close>) or holds its elements. \<open>var books []models.Book\<close>
  is \<open>nil\<close>, and \<open>append\<close> gives a slice that is not; the JSON encoder writes \<open>nil\<close>
  as \<open>null\<close> and a slice that is not \<open>nil\<close> as an array.
\<close>

definition append_book :: "Book list option \<Rightarrow> Book \<Rightarrow> Book list option" where
  "append_book books book = Some ((case books of None \<Rightarrow> [] | Some bs \<Rightarrow> bs) @ [book])"

text \<open>\<open>PaginatedResponse\<close>; its \<open>Data\<close> holds the slice of books.\<close>

record PaginatedResponse =
  pgSuccess :: bool
  pgData :: "Book list option"
  pgPagination :: Pagination
  pgError :: string

section \<open>The storage engine\<close>

text \<open>
  The engine is the environment of the program. It is modelled for one request at a time
  and for a connection that works: the table \<open>books\<close> as the list of its rows, the
  AUTO_INCREMENT counter, whether the table carries the CHECK constraint on
  \<open>published_year\<close> (the table of migrations/01_init.sql does, the one \<open>RunMigrations\<close>
  creates does not), and the collation of the table. \<open>writes\<close> is bookkeeping of the
  model: the number of INSERT, UPDATE and DELETE statements the engine has been sent.
  Each statement of db/db.go has its standard SQL meaning on the schema of
  \<open>RunMigrations\<close>, in the engine's default strict mode: a value that does not fit its
  column is an error.

  The schema declares the collation utf8mb4_unicode_ci. The engine compares two
  characters by the weights the collation gives them: letters that differ in case
  only, or in an accent only, have the same weight. The table of weights is the
  engine's and not part of the repository, so it is a parameter of the model:
  \<open>coll_key\<close> is the weight of a character.
\<close>

record store =
  rows :: "Book list"
  next_id :: int
  year_check :: bool
  coll_key :: "char \<Rightarrow> nat"
  writes :: nat

datatype db_error = ErrNoRows | QueryFailed

text \<open>
  A VARCHAR(n) column: a longer value is refused, unless only spaces are cut off.
\<close>

definition fit_varchar :: "nat \<Rightarrow> string \<Rightarrow> string option" where
  "fit_varchar n s =
     (if length s \<le> n then Some s
      else if list_all (\<lambda>c. c = CHR '' '') (drop n s) then Some (take n s)
      else None)"

text \<open>An INT column: 32 bits, signed.\<close>

definition fit_int :: "int \<Rightarrow> int option" where
  "fit_int v = (if - (2 ^ 31) \<le> v \<and> v \<le> 2 ^ 31 - 1 then Some v else None)"

definition fit_year :: "store \<Rightarrow> int \<Rightarrow> int option" where
  "fit_year db y =
     (if year_check db \<and> (y < 1000 \<or> 2100 < y) then None else fit_int y)"

text \<open>
  \<open>subject LIKE pattern\<close> under the collation with weights \<open>k\<close>: \<open>%\<close> stands for any run
  of characters, \<open>_\<close> for any one character, and a backslash makes the character after
  it literal; any other character of the pattern stands for the characters of its weight.
\<close>

fun like :: "(char \<Rightarrow> nat) \<Rightarrow> string \<Rightarrow> string \<Rightarrow> bool" where
  "like k [] s = (s = [])"
| "like k (p # ps) [] = (p = CHR ''%'' \<and> like k ps [])"
| "like k (p # ps) (c # cs) =
     (if p = CHR ''%'' then like k ps (c # cs) \<or> like k (p # ps) cs
      else if p = CHR ''_'' then like k ps cs
      else if p = CHR 0x5C then
        (case ps of [] \<Rightarrow> k p = k c \<and> like k [] cs
         | e # ps' \<Rightarrow> k e = k c \<and> like k ps' cs)
      else k p = k c \<and> like k ps cs)"

text \<open>\<open>ORDER BY created_at DESC\<close>; rows created at the same time keep the table's order.\<close>

definition order_by_created_desc :: "Book list \<Rightarrow> Book list" where
  "order_by_created_desc bs = sort_key (\<lambda>b. - CreatedAt b) bs"

text \<open>\<open>LIMIT ? OFFSET ?\<close>: a negative argument is refused by the engine.\<close>

definition limit_offset :: "int \<Rightarrow> int \<Rightarrow> Book list \<Rightarrow> db_error + Book list" where
  "limit_offset lmt off bs =
     (if lmt < 0 \<or> off < 0 then Inl QueryFailed
      else Inr (take (nat lmt) (drop (nat off) bs)))"

text \<open>\<open>SELECT COUNT(*) FROM books\<close>\<close>

definition sql_count_all :: "store \<Rightarrow> int" where
  "sql_count_all db = int (length (rows db))"

text \<open>\<open>SELECT ... FROM books ORDER BY created_at DESC LIMIT ? OFFSET ?\<close>\<close>

definition sql_select_page :: "store \<Rightarrow> int \<Rightarrow> int \<Rightarrow> db_error + Book list" where
  "sql_select_page db lmt off = limit_offset lmt off (order_by_created_desc (rows db))"

definition like_row :: "(char \<Rightarrow> nat) \<Rightarrow> string \<Rightarrow> Book \<Rightarrow> bool" where
  "like_row k pat b = (like k pat (Title b) \<or> like k pat (Author b))"

text \<open>\<open>SELECT COUNT(*) FROM books WHERE title LIKE ? OR author LIKE ?\<close>\<close>

definition sql_count_like :: "store \<Rightarrow> string \<Rightarrow> int" where
  "sql_count_like db pat = int (length (filter (like_row (coll_key db) pat) (rows db)))"

text \<open>\<open>SELECT ... WHERE title LIKE ? OR author LIKE ? ORDER BY created_at DESC LIMIT ? OFFSET ?\<close>\<close>

definition sql_select_like_page ::
  "store \<Rightarrow> string \<Rightarrow> int \<Rightarrow> int \<Rightarrow> db_error + Book list" where
  "sql_select_like_page db pat lmt off =
     limit_offset lmt off
       (order_by_created_desc (filter (like_row (coll_key db) pat) (rows db)))"

text \<open>\<open>SELECT ... FROM books WHERE id = ?\<close>, first row; \<open>None\<close> is \<open>sql.ErrNoRows\<close>.\<close>

definition sql_select_by_id :: "store \<Rightarrow> int \<Rightarrow> Book option" where
  "sql_select_by_id db i = find (\<lambda>b. ID b = i) (rows db)"

text \<open>
  \<open>INSERT INTO books (title, author, published_year, available) VALUES (?, ?, ?, ?)\<close>
  at engine time \<open>now\<close>: the id comes from the counter, both timestamps default to
  CURRENT_TIMESTAMP. The result is \<open>LastInsertId\<close>.
\<close>

definition sql_insert ::
  "store \<Rightarrow> timestamp \<Rightarrow> string \<Rightarrow> string \<Rightarrow> int \<Rightarrow> bool \<Rightarrow> store \<times> (db_error + int)" where
  "sql_insert db now t a y av =
     (let db1 = db\<lparr>writes := Suc (writes db)\<rparr> in
      case (fit_varchar 255 t, fit_varchar 255 a, fit_year db y, fit_int (next_id db)) of
        (Some t', Some a', Some y', Some i) \<Rightarrow>
          (db1\<lparr>rows := rows db @
                  [\<lparr>ID = i, Title = t', Author = a', PublishedYear = y', Available = av,
                    CreatedAt = now, UpdatedAt = now\<rparr>],
                next_id := i + 1\<rparr>, Inr i)
      | _ \<Rightarrow> (db1, Inl QueryFailed))"

text \<open>
  The SET clause that \<open>UpdateBook\<close> builds: one entry of \<open>updates\<close> with its argument
  in \<open>args\<close> for each supplied field.
\<close>

datatype assignment =
  Set_title string | Set_author string | Set_published_year int | Set_available bool

text \<open>The value an assignment stores, when it fits its column.\<close>

fun fit_assignment :: "store \<Rightarrow> assignment \<Rightarrow> assignment option" where
  "fit_assignment db (Set_title t) = map_option Set_title (fit_varchar 255 t)"
| "fit_assignment db (Set_author a) = map_option Set_author (fit_varchar 255 a)"
| "fit_assignment db (Set_published_year y) = map_option Set_published_year (fit_year db y)"
| "fit_assignment db (Set_available v) = Some (Set_available v)"

fun assign :: "assignment \<Rightarrow> Book \<Rightarrow> Book" where
  "assign (Set_title t) b = b\<lparr>Title := t\<rparr>"
| "assign (Set_author a) b = b\<lparr>Author := a\<rparr>"
| "assign (Set_published_year y) b = b\<lparr>PublishedYear := y\<rparr>"
| "assign (Set_available v) b = b\<lparr>Available := v\<rparr>"

text \<open>
  \<open>UPDATE books SET <updates>, updated_at = CURRENT_TIMESTAMP WHERE id = ?\<close> at engine
  time \<open>now\<close>.
\<close>

definition sql_update ::
  "store \<Rightarrow> timestamp \<Rightarrow> assignment list \<Rightarrow> int \<Rightarrow> store \<times> (db_error + unit)" where
  "sql_update db now updates i =
     (let db1 = db\<lparr>writes := Suc (writes db)\<rparr> in
      case those (map (fit_assignment db) updates) of
        None \<Rightarrow> (db1, Inl QueryFailed)
      | Some fitted \<Rightarrow>
          (db1\<lparr>rows := map (\<lambda>b. if ID b = i then (fold assign fitted b)\<lparr>UpdatedAt := now\<rparr> else b)
                           (rows db)\<rparr>,
           Inr ()))"

text \<open>\<open>DELETE FROM books WHERE id = ?\<close>\<close>

definition sql_delete :: "store \<Rightarrow> int \<Rightarrow> store \<times> (db_error + unit)" where
  "sql_delete db i =
     (db\<lparr>rows := filter (\<lambda>b. ID b \<noteq> i) (rows db), writes := Suc (writes db)\<rparr>, Inr ())"

section \<open>The storage accessor (db/db.go)\<close>

text \<open>
  The loop over \<open>rows.Next()\<close>: \<open>books\<close> starts \<open>nil\<close> and every row is appended.
\<close>

definition scan_rows :: "Book list \<Rightarrow> Book list option" where
  "scan_rows rs = foldl append_book None rs"

definition db_GetBooks ::
  "store \<Rightarrow> int \<Rightarrow> int \<Rightarrow> db_error + (Book list option \<times> int)" where
  "db_GetBooks db page limit =
     (let total = sql_count_all db;
          offset = wrap64 (wrap64 (page - 1) * limit)
      in case sql_select_page db limit offset of
           Inl e \<Rightarrow> Inl e
         | Inr rs \<Rightarrow> Inr (scan_rows rs, total))"

definition GetBookByID :: "store \<Rightarrow> int \<Rightarrow> db_error + Book option" where
  "GetBookByID db i = Inr (sql_select_by_id db i)"

definition db_CreateBook ::
  "store \<Rightarrow> timestamp \<Rightarrow> CreateBookRequest \<Rightarrow> store \<times> (db_error + Book option)" where
  "db_CreateBook db now req =
     (let available = (case crAvailable req of None \<Rightarrow> True | Some v \<Rightarrow> v) in
      case sql_insert db now (crTitle req) (crAuthor req) (crPublishedYear req) available of
        (db', Inl e) \<Rightarrow> (db', Inl e)
      | (db', Inr i) \<Rightarrow> (db', GetBookByID db' i))"

definition build_updates :: "UpdateBookRequest \<Rightarrow> assignment list" where
  "build_updates req =
     (case upTitle req of None \<Rightarrow> [] | Some t \<Rightarrow> [Set_title t]) @
     (case upAuthor req of None \<Rightarrow> [] | Some a \<Rightarrow> [Set_author a]) @
     (case upPublishedYear req of None \<Rightarrow> [] | Some y \<Rightarrow> [Set_published_year y]) @
     (case upAvailable req of None \<Rightarrow> [] | Some v \<Rightarrow> [Set_available v])"

definition db_UpdateBook ::
  "store \<Rightarrow> timestamp \<Rightarrow> int \<Rightarrow> UpdateBookRequest \<Rightarrow> store \<times> (db_error + Book option)" where
  "db_UpdateBook db now i req =
     (case GetBookByID db i of
        Inl e \<Rightarrow> (db, Inl e)
      | Inr None \<Rightarrow> (db, Inr None)
      | Inr (Some existing) \<Rightarrow>
          (let updates = build_updates req in
           if length updates = 0 then (db, Inr (Some existing))
           else case sql_update db now updates i of
                  (db', Inl e) \<Rightarrow> (db', Inl e)
                | (db', Inr _) \<Rightarrow> (db', GetBookByID db' i)))"

text \<open>The result is the error returned; \<open>None\<close> is \<open>nil\<close>.\<close>

definition db_DeleteBook :: "store \<Rightarrow> int \<Rightarrow> store \<times> db_error option" where
  "db_DeleteBook db i =
     (case GetBookByID db i of
        Inl e \<Rightarrow> (db, Some e)
      | Inr None \<Rightarrow> (db, Some ErrNoRows)
      | Inr (Some existing) \<Rightarrow>
          (case sql_delete db i of
             (db', Inl e) \<Rightarrow> (db', Some e)
           | (db', Inr _) \<Rightarrow> (db', None)))"

definition SearchBooks ::
  "store \<Rightarrow> string \<Rightarrow> int \<Rightarrow> int \<Rightarrow> db_error + (Book list option \<times> int)" where
  "SearchBooks db query page limit =
     (let searchTerm = ''%'' @ query @ ''%'';
          total = sql_count_like db searchTerm;
          offset = wrap64 (wrap64 (page - 1) * limit)
      in case sql_select_like_page db searchTerm limit offset of
           Inl e \<Rightarrow> Inl e
         | Inr rs \<Rightarrow> Inr (scan_rows rs, total))"

section \<open>The request handlers (handlers/book_handler.go)\<close>

text \<open>What a handler writes: the status code and the JSON envelope.\<close>

datatype response = JSON int APIResponse | JSONPage int PaginatedResponse

definition sendErrorResponse :: "int \<Rightarrow> string \<Rightarrow> response" where
  "sendErrorResponse statusCode message =
     JSON statusCode \<lparr>Success = False, Data = None, Error = message, Message = []\<rparr>"

text \<open>
  \<open>int(math.Ceil(float64(total) / float64(limit)))\<close>. A count of rows and a limit of at
  most 100 are far below \<open>2 ^ 53\<close>, where float64 holds every integer exactly and the
  rounded quotient has the ceiling of the exact one; the model takes the exact quotient.
\<close>

definition totalPages :: "int \<Rightarrow> int \<Rightarrow> int" where
  "totalPages total' limit = \<lceil>real_of_int total' / real_of_int limit\<rceil>"

text \<open>The \<open>page\<close> and \<open>limit\<close> the handler works with, from the query parameters.\<close>

definition parse_page :: "string \<Rightarrow> int" where
  "parse_page pageStr =
     (if pageStr \<noteq> [] then
        (case Atoi pageStr of Some p \<Rightarrow> if p > 0 then p else 1 | None \<Rightarrow> 1)
      else 1)"

definition parse_limit :: "string \<Rightarrow> int" where
  "parse_limit limitStr =
     (if limitStr \<noteq> [] then
        (case Atoi limitStr of Some l \<Rightarrow> if l > 0 \<and> l \<le> 100 then l else 10 | None \<Rightarrow> 10)
      else 10)"

text \<open>GET /api/v1/books, with the values of the query parameters page, limit and q.\<close>

definition GetBooks :: "store \<Rightarrow> string \<Rightarrow> string \<Rightarrow> string \<Rightarrow> response" where
  "GetBooks db pageStr limitStr q =
     (let searchQuery = TrimSpace q;
          page = parse_page pageStr;
          limit = parse_limit limitStr
      in case (if searchQuery \<noteq> [] then SearchBooks db searchQuery page limit
               else db_GetBooks db page limit) of
           Inl e \<Rightarrow> sendErrorResponse 500 ''Failed to retrieve books''
         | Inr (books, total') \<Rightarrow>
             JSONPage 200
               \<lparr>pgSuccess = True, pgData = books,
                pgPagination = \<lparr>Page = page, Limit = limit, Total = total',
                                TotalPages = totalPages total' limit\<rparr>,
                pgError = []\<rparr>)"

text \<open>GET /api/v1/books/{id}\<close>

definition GetBook :: "store \<Rightarrow> string \<Rightarrow> response" where
  "GetBook db idStr =
     (case Atoi idStr of
        None \<Rightarrow> sendErrorResponse 400 ''Invalid book ID''
      | Some i \<Rightarrow>
          (case GetBookByID db i of
             Inl e \<Rightarrow> sendErrorResponse 500 ''Failed to retrieve book''
           | Inr None \<Rightarrow> sendErrorResponse 404 ''Book not found''
           | Inr (Some book) \<Rightarrow>
               JSON 200 \<lparr>Success = True, Data = Some book, Error = [], Message = []\<rparr>))"

text \<open>
  POST /api/v1/books. The body is given as the decoder leaves it: \<open>None\<close> when it is
  not JSON for a \<open>CreateBookRequest\<close>. \<open>now\<close> is the engine's time when the
  statement that writes runs; the handler returns the store it leaves and the response.
\<close>

definition CreateBook ::
  "store \<Rightarrow> timestamp \<Rightarrow> CreateBookRequest option \<Rightarrow> store \<times> response" where
  "CreateBook db now body =
     (case body of
        None \<Rightarrow> (db, sendErrorResponse 400 ''Invalid JSON payload'')
      | Some req \<Rightarrow>
          if TrimSpace (crTitle req) = [] then (db, sendErrorResponse 400 ''Title is required'')
          else if TrimSpace (crAuthor req) = [] then
            (db, sendErrorResponse 400 ''Author is required'')
          else if crPublishedYear req < 1000 \<or> crPublishedYear req > 2100 then
            (db, sendErrorResponse 400 ''Published year must be between 1000 and 2100'')
          else
            (case db_CreateBook db now
                    (req\<lparr>crTitle := TrimSpace (crTitle req),
                         crAuthor := TrimSpace (crAuthor req)\<rparr>) of
               (db', Inl e) \<Rightarrow> (db', sendErrorResponse 500 ''Failed to create book'')
             | (db', Inr book) \<Rightarrow>
                 (db', JSON 201 \<lparr>Success = True, Data = book, Error = [],
                                 Message = ''Book created successfully''\<rparr>)))"

text \<open>PUT /api/v1/books/{id}\<close>

definition UpdateBook ::
  "store \<Rightarrow> timestamp \<Rightarrow> string \<Rightarrow> UpdateBookRequest option \<Rightarrow> store \<times> response" where
  "UpdateBook db now idStr body =
     (case Atoi idStr of
        None \<Rightarrow> (db, sendErrorResponse 400 ''Invalid book ID'')
      | Some i \<Rightarrow>
          (case body of
             None \<Rightarrow> (db, sendErrorResponse 400 ''Invalid JSON payload'')
           | Some req \<Rightarrow>
               if upTitle req \<noteq> None \<and> TrimSpace (the (upTitle req)) = [] then
                 (db, sendErrorResponse 400 ''Title cannot be empty'')
               else if upAuthor req \<noteq> None \<and> TrimSpace (the (upAuthor req)) = [] then
                 (db, sendErrorResponse 400 ''Author cannot be empty'')
               else if upPublishedYear req \<noteq> None \<and>
                       (the (upPublishedYear req) < 1000 \<or> the (upPublishedYear req) > 2100) then
                 (db, sendErrorResponse 400 ''Published year must be between 1000 and 2100'')
               else
                 (case db_UpdateBook db now i
                         (req\<lparr>upTitle := map_option TrimSpace (upTitle req),
                              upAuthor := map_option TrimSpace (upAuthor req)\<rparr>) of
                    (db', Inl e) \<Rightarrow> (db', sendErrorResponse 500 ''Failed to update book'')
                  | (db', Inr None) \<Rightarrow> (db', sendErrorResponse 404 ''Book not found'')
                  | (db', Inr (Some book)) \<Rightarrow>
                      (db', JSON 200 \<lparr>Success = True, Data = Some book, Error = [],
                                      Message = ''Book updated successfully''\<rparr>))))"

text \<open>DELETE /api/v1/books/{id}\<close>

definition DeleteBook :: "store \<Rightarrow> string \<Rightarrow> store \<times> response" where
  "DeleteBook db idStr =
     (case Atoi idStr of
        None \<Rightarrow> (db, sendErrorResponse 400 ''Invalid book ID'')
      | Some i \<Rightarrow>
          (case db_DeleteBook db i of
             (db', Some ErrNoRows) \<Rightarrow> (db', sendErrorResponse 404 ''Book not found'')
           | (db', Some e) \<Rightarrow> (db', sendErrorResponse 500 ''Failed to delete book'')
           | (db', None) \<Rightarrow>
               (db', JSON 200 \<lparr>Success = True, Data = None, Error = [],
                               Message = ''Book deleted successfully''\<rparr>)))"

section \<open>Notions of the statements\<close>

text \<open>Case folding of the ASCII letters.\<close>

definition to_lower :: "char \<Rightarrow> char" where
  "to_lower c =
     (if 65 \<le> (of_char c :: nat) \<and> (of_char c :: nat) \<le> 90
      then char_of ((of_char c :: nat) + 32) else c)"

text \<open>
  "s contains q as a case-insensitive substring": after folding the case of both, \<open>q\<close>
  is a contiguous part of \<open>s\<close>.
\<close>

definition ci_contains :: "string \<Rightarrow> string \<Rightarrow> bool" where
  "ci_contains q s = sublist (map to_lower q) (map to_lower s)"


text \<open>
  "s contains q as a substring under the collation": a contiguous part of \<open>s\<close> has,
  character by character, the weights of \<open>q\<close>.
\<close>

definition coll_contains :: "(char \<Rightarrow> nat) \<Rightarrow> string \<Rightarrow> string \<Rightarrow> bool" where
  "coll_contains k q s = sublist (map k q) (map k s)"


text \<open>
  The rows the statements of a list request range over in the code: the WHERE clause of
  \<open>SearchBooks\<close> when the handler has a search term, every row otherwise.
\<close>

definition matched_rows :: "store \<Rightarrow> string \<Rightarrow> Book list" where
  "matched_rows db searchQuery =
     (if searchQuery \<noteq> []
      then filter (like_row (coll_key db) (''%'' @ searchQuery @ ''%'')) (rows db)
      else rows db)"


text \<open>
  The page and the limit a list request asks for, as the specification has them: the
  default 1 unless the parameter is a positive number, and the default 10 unless the
  parameter is a number within 1..100.
\<close>

definition spec_page :: "string \<Rightarrow> int" where
  "spec_page pageStr = (case Atoi pageStr of Some p \<Rightarrow> if 0 < p then p else 1 | None \<Rightarrow> 1)"

definition spec_limit :: "string \<Rightarrow> int" where
  "spec_limit limitStr =
     (case Atoi limitStr of Some l \<Rightarrow> if 0 < l \<and> l \<le> 100 then l else 10 | None \<Rightarrow> 10)"


text \<open>The bounds of the data model on title and author.\<close>

definition title_author_ok :: "Book \<Rightarrow> bool" where
  "title_author_ok b =
     (Title b \<noteq> [] \<and> length (Title b) \<le> 255 \<and> Author b \<noteq> [] \<and> length (Author b) \<le> 255)"

text \<open>
  The table as the engine keeps it: \<open>id\<close> is the primary key, and the counter is
  beyond every id in use.
\<close>

definition wf_store :: "store \<Rightarrow> bool" where
  "wf_store db =
     (distinct (map ID (rows db)) \<and> 0 < next_id db \<and>
      list_all (\<lambda>b. 0 < ID b \<and> ID b < next_id db) (rows db))"

section \<open>Sample data\<close>

text \<open>
  Two of the books that migrations/01_init.sql inserts, as the only rows of a table,
  created at engine times 100 and 200.
\<close>

definition book_1 :: Book where
  "book_1 = \<lparr>ID = 1, Title = ''Clean Code'', Author = ''Robert C. Martin'',
              PublishedYear = 2008, Available = True, CreatedAt = 100, UpdatedAt = 100\<rparr>"

definition book_2 :: Book where
  "book_2 = \<lparr>ID = 2, Title = ''Effective Go'', Author = ''The Go Team'',
              PublishedYear = 2020, Available = True, CreatedAt = 200, UpdatedAt = 200\<rparr>"

text \<open>
  Weights that tell all characters apart but an ASCII letter from the same letter in the
  other case; the sample table is compared with them.
\<close>

definition ascii_key :: "char \<Rightarrow> nat" where
  "ascii_key c = of_char (to_lower c)"

definition store_1 :: store where
  "store_1 = \<lparr>rows = [book_1, book_2], next_id = 3, year_check = True,
               coll_key = ascii_key, writes = 0\<rparr>"




text \<open>A title of 256 characters.\<close>

definition long_title :: string where
  "long_title = replicate 256 (CHR ''a'')"

definition no_fields :: UpdateBookRequest where
  "no_fields = \<lparr>upTitle = None, upAuthor = None, upPublishedYear = None, upAvailable = None\<rparr>"

section \<open>Reading the path parameter and the record\<close>

lemma Atoi_1: "Atoi ''1'' = Some 1"
  by (simp add: Atoi_def isDigit_def digits_val_def)

lemma select_book_1: "sql_select_by_id store_1 1 = Some book_1"
  by (simp add: sql_select_by_id_def store_1_def book_1_def)

lemma build_updates_Nil:
  "build_updates req = [] \<longleftrightarrow>
     upTitle req = None \<and> upAuthor req = None \<and> upPublishedYear req = None \<and>
     upAvailable req = None"
  by (auto simp: build_updates_def split: option.splits)

section \<open>Partial update\<close>

lemma db_UpdateBook_no_fields:
  "sql_select_by_id db i = Some existing \<Longrightarrow> build_updates req = [] \<Longrightarrow>
   db_UpdateBook db now i req = (db, Inr (Some existing))"
  by (simp add: db_UpdateBook_def GetBookByID_def)

text \<open>
  C2. An update of an existing record that supplies no field returns the existing record
  as it is and sends the engine no write: the store comes back unchanged, its count of
  write statements included, so the timestamp is not refreshed. This holds for the
  storage accessor and for the handler on top of it.
\<close>

theorem UpdateBook_no_fields_unchanged:
  assumes "Atoi idStr = Some i" and "sql_select_by_id db i = Some existing"
    and "upTitle req = None" and "upAuthor req = None"
    and "upPublishedYear req = None" and "upAvailable req = None"
  shows "db_UpdateBook db now i req = (db, Inr (Some existing)) \<and>
         UpdateBook db now idStr (Some req) =
           (db, JSON 200 \<lparr>Success = True, Data = Some existing, Error = [],
                          Message = ''Book updated successfully''\<rparr>)"
proof -
  have nil: "build_updates req = []"
    using assms by (simp add: build_updates_Nil)
  have same: "req\<lparr>upTitle := None, upAuthor := None\<rparr> = req"
    using assms by simp
  have acc: "db_UpdateBook db now i req = (db, Inr (Some existing))"
    using assms(2) nil by (rule db_UpdateBook_no_fields)
  show ?thesis
    using assms acc by (simp add: UpdateBook_def same)
qed

theorem UpdateBook_no_fields_unchanged_witness:
  "db_UpdateBook store_1 500 1 no_fields = (store_1, Inr (Some book_1)) \<and>
   UpdateBook store_1 500 ''1'' (Some no_fields) =
     (store_1, JSON 200 \<lparr>Success = True, Data = Some book_1, Error = [],
                         Message = ''Book updated successfully''\<rparr>)"
  using UpdateBook_no_fields_unchanged [OF Atoi_1 select_book_1, of no_fields 500]
  by (simp add: no_fields_def)


lemma ID_assign: "ID (assign a b) = ID b"
  by (cases a) simp_all

lemma CreatedAt_assign: "CreatedAt (assign a b) = CreatedAt b"
  by (cases a) simp_all

lemma ID_fold_assign: "ID (fold assign fs b) = ID b"
  by (induction fs arbitrary: b) (simp_all add: ID_assign)

lemma CreatedAt_fold_assign: "CreatedAt (fold assign fs b) = CreatedAt b"
  by (induction fs arbitrary: b) (simp_all add: CreatedAt_assign)

lemma find_map_same_id:
  assumes "\<And>b. ID (f b) = ID b"
  shows "find (\<lambda>b. ID b = i) (map (\<lambda>b. if ID b = i then f b else b) bs) =
         map_option f (find (\<lambda>b. ID b = i) bs)"
  by (induction bs) (simp_all add: assms)

text \<open>The row an UPDATE leaves behind, field by field.\<close>

lemma fitted_fields:
  assumes "those (map (fit_assignment db) (build_updates req)) = Some fs"
  shows "Title (fold assign fs b) =
           (case upTitle req of None \<Rightarrow> Title b | Some t \<Rightarrow> the (fit_varchar 255 t))"
    and "Author (fold assign fs b) =
           (case upAuthor req of None \<Rightarrow> Author b | Some a \<Rightarrow> the (fit_varchar 255 a))"
    and "PublishedYear (fold assign fs b) =
           (case upPublishedYear req of None \<Rightarrow> PublishedYear b | Some y \<Rightarrow> y)"
    and "Available (fold assign fs b) =
           (case upAvailable req of None \<Rightarrow> Available b | Some v \<Rightarrow> v)"
    and "UpdatedAt (fold assign fs b) = UpdatedAt b"
  using assms
  by (auto simp: build_updates_def fit_year_def fit_int_def
           split: option.splits if_splits)

lemma fitted_strings:
  assumes "those (map (fit_assignment db) (build_updates req)) = Some fs"
  shows "case upTitle req of None \<Rightarrow> True | Some t \<Rightarrow> fit_varchar 255 t \<noteq> None"
    and "case upAuthor req of None \<Rightarrow> True | Some a \<Rightarrow> fit_varchar 255 a \<noteq> None"
  using assms
  by (auto simp: build_updates_def fit_year_def fit_int_def
           split: option.splits if_splits)

lemma db_UpdateBook_result:
  assumes sel: "sql_select_by_id db i = Some b"
    and run: "db_UpdateBook db now i req = (db', Inr r)"
  shows "\<exists>b'. r = Some b' \<and> sql_select_by_id db' i = Some b' \<and>
           ID b' = ID b \<and> CreatedAt b' = CreatedAt b \<and>
           Title b' = (case upTitle req of None \<Rightarrow> Title b | Some t \<Rightarrow> the (fit_varchar 255 t)) \<and>
           Author b' = (case upAuthor req of None \<Rightarrow> Author b | Some a \<Rightarrow> the (fit_varchar 255 a)) \<and>
           PublishedYear b' = (case upPublishedYear req of None \<Rightarrow> PublishedYear b | Some y \<Rightarrow> y) \<and>
           Available b' = (case upAvailable req of None \<Rightarrow> Available b | Some v \<Rightarrow> v) \<and>
           UpdatedAt b' = (if build_updates req = [] then UpdatedAt b else now) \<and>
           writes db' = (if build_updates req = [] then writes db else Suc (writes db)) \<and>
           (case upTitle req of None \<Rightarrow> True | Some t \<Rightarrow> fit_varchar 255 t \<noteq> None) \<and>
           (case upAuthor req of None \<Rightarrow> True | Some a \<Rightarrow> fit_varchar 255 a \<noteq> None)"
proof (cases "build_updates req = []")
  case True
  then have "db_UpdateBook db now i req = (db, Inr (Some b))"
    using sel by (simp add: db_UpdateBook_no_fields)
  with run have "db' = db" and "r = Some b" by simp_all
  moreover have "upTitle req = None" "upAuthor req = None" "upPublishedYear req = None"
    "upAvailable req = None"
    using True by (simp_all add: build_updates_Nil)
  ultimately show ?thesis using sel True by simp
next
  case False
  show ?thesis
  proof (cases "those (map (fit_assignment db) (build_updates req))")
    case None
    then have "snd (db_UpdateBook db now i req) = Inl QueryFailed"
      using sel False by (simp add: db_UpdateBook_def GetBookByID_def sql_update_def)
    with run show ?thesis by simp
  next
    case (Some fs)
    define f where "f = (\<lambda>b. (fold assign fs b)\<lparr>UpdatedAt := now\<rparr>)"
    define db2 where "db2 = db\<lparr>writes := Suc (writes db),
                               rows := map (\<lambda>b. if ID b = i then f b else b) (rows db)\<rparr>"
    have idf: "\<And>x. ID (f x) = ID x"
      by (simp add: f_def ID_fold_assign)
    have upd: "sql_update db now (build_updates req) i = (db2, Inr ())"
      using Some by (simp add: sql_update_def db2_def f_def)
    have sel2: "sql_select_by_id db2 i = Some (f b)"
      using sel find_map_same_id [of f, OF idf]
      by (simp add: sql_select_by_id_def db2_def)
    have "db_UpdateBook db now i req = (db2, Inr (Some (f b)))"
      using sel False upd sel2 by (simp add: db_UpdateBook_def GetBookByID_def)
    with run have eq: "db' = db2" "r = Some (f b)" by simp_all
    have w: "writes db2 = Suc (writes db)"
      by (simp add: db2_def)
    show ?thesis
      using eq sel2 False w fitted_fields [OF Some, of b] fitted_strings [OF Some]
      by (simp add: f_def ID_fold_assign CreatedAt_fold_assign)
  qed
qed

lemma TrimSpace_last:
  assumes "TrimSpace s \<noteq> []"
  shows "\<not> isSpace (last (TrimSpace s))"
proof -
  let ?xs = "rev (dropWhile isSpace s)"
  have ne: "dropWhile isSpace ?xs \<noteq> []"
    using assms by (simp add: TrimSpace_def)
  then have "\<not> isSpace (hd (dropWhile isSpace ?xs))"
    by (rule hd_dropWhile)
  moreover have "last (TrimSpace s) = hd (dropWhile isSpace ?xs)"
    using ne by (simp add: TrimSpace_def last_rev)
  ultimately show ?thesis by simp
qed

lemma fit_varchar_TrimSpace:
  "fit_varchar n (TrimSpace s) = (if length (TrimSpace s) \<le> n then Some (TrimSpace s) else None)"
proof (cases "length (TrimSpace s) \<le> n")
  case True
  then show ?thesis by (simp add: fit_varchar_def)
next
  case False
  then have ne: "TrimSpace s \<noteq> []" and dn: "drop n (TrimSpace s) \<noteq> []"
    by auto
  have "last (drop n (TrimSpace s)) = last (TrimSpace s)"
    using False by simp
  then have "last (TrimSpace s) \<in> set (drop n (TrimSpace s))"
    using dn last_in_set by metis
  moreover have "last (TrimSpace s) \<noteq> CHR '' ''"
    using TrimSpace_last [OF ne] by (auto simp: isSpace_def)
  ultimately have "\<not> list_all (\<lambda>c. c = CHR '' '') (drop n (TrimSpace s))"
    by (auto simp: list_all_iff)
  with False show ?thesis by (simp add: fit_varchar_def)
qed

lemma build_updates_trimmed:
  "build_updates (req\<lparr>upTitle := map_option TrimSpace (upTitle req),
                        upAuthor := map_option TrimSpace (upAuthor req)\<rparr>) = [] \<longleftrightarrow>
   build_updates req = []"
  by (simp add: build_updates_Nil)

text \<open>What an accepted PUT on an existing record returns and leaves in the store.\<close>

lemma UpdateBook_accepted:
  assumes id: "Atoi idStr = Some i"
    and sel: "sql_select_by_id db i = Some b"
    and run: "UpdateBook db now idStr (Some req) = (db', JSON 200 r)"
  shows "\<exists>b'. Data r = Some b' \<and> sql_select_by_id db' i = Some b' \<and>
           ID b' = ID b \<and> CreatedAt b' = CreatedAt b \<and>
           Title b' = (case upTitle req of None \<Rightarrow> Title b | Some t \<Rightarrow> TrimSpace t) \<and>
           Author b' = (case upAuthor req of None \<Rightarrow> Author b | Some a \<Rightarrow> TrimSpace a) \<and>
           PublishedYear b' = (case upPublishedYear req of None \<Rightarrow> PublishedYear b | Some y \<Rightarrow> y) \<and>
           Available b' = (case upAvailable req of None \<Rightarrow> Available b | Some v \<Rightarrow> v) \<and>
           UpdatedAt b' = (if build_updates req = [] then UpdatedAt b else now) \<and>
           writes db' = (if build_updates req = [] then writes db else Suc (writes db))"
proof -
  define req' where "req' = req\<lparr>upTitle := map_option TrimSpace (upTitle req),
                                 upAuthor := map_option TrimSpace (upAuthor req)\<rparr>"
  obtain d x where acc: "db_UpdateBook db now i req' = (d, x)"
    by (cases "db_UpdateBook db now i req'") auto
  have "\<exists>b'. d = db' \<and> x = Inr (Some b') \<and> Data r = Some b'"
    using run id acc
    by (auto simp: UpdateBook_def sendErrorResponse_def req'_def
             split: if_splits sum.splits option.splits)
  then obtain b' where d: "d = db'" and x: "x = Inr (Some b')" and r: "Data r = Some b'"
    by blast
  have acc': "db_UpdateBook db now i req' = (db', Inr (Some b'))"
    using acc d x by simp
  have nil: "build_updates req' = [] \<longleftrightarrow> build_updates req = []"
    unfolding req'_def by (rule build_updates_trimmed)
  have t: "upTitle req' = map_option TrimSpace (upTitle req)"
    and a: "upAuthor req' = map_option TrimSpace (upAuthor req)"
    and y: "upPublishedYear req' = upPublishedYear req"
    and v: "upAvailable req' = upAvailable req"
    by (simp_all add: req'_def)
  show ?thesis
    using db_UpdateBook_result [OF sel acc'] r
    unfolding nil t a y v
    by (cases "upTitle req"; cases "upAuthor req")
       (auto simp: fit_varchar_TrimSpace split: if_splits)
qed

text \<open>
  C1, as amended. For an accepted PUT on an existing record: the returned record is the
  one now stored under the id; id and creation time are kept; every field the request
  does not supply keeps its previous value; a supplied year or availability is stored as
  given, a supplied title or author after trimming; and when at least one field is
  supplied the update timestamp is the engine's time at the write (otherwise it is kept).
\<close>

theorem UpdateBook_frame:
  assumes "Atoi idStr = Some i"
    and "sql_select_by_id db i = Some b"
    and "UpdateBook db now idStr (Some req) = (db', JSON 200 r)"
  shows "\<exists>b'. Data r = Some b' \<and> sql_select_by_id db' i = Some b' \<and>
           ID b' = ID b \<and> CreatedAt b' = CreatedAt b \<and>
           Title b' = (case upTitle req of None \<Rightarrow> Title b | Some t \<Rightarrow> TrimSpace t) \<and>
           Author b' = (case upAuthor req of None \<Rightarrow> Author b | Some a \<Rightarrow> TrimSpace a) \<and>
           PublishedYear b' = (case upPublishedYear req of None \<Rightarrow> PublishedYear b | Some y \<Rightarrow> y) \<and>
           Available b' = (case upAvailable req of None \<Rightarrow> Available b | Some v \<Rightarrow> v) \<and>
           UpdatedAt b' = (if build_updates req = [] then UpdatedAt b else now)"
  using UpdateBook_accepted [OF assms] by blast

lemma put_title_at_100:
  "UpdateBook store_1 100 ''1'' (Some (no_fields\<lparr>upTitle := Some '' Foo ''\<rparr>)) =
     (store_1\<lparr>rows := [book_1\<lparr>Title := ''Foo''\<rparr>, book_2], writes := 1\<rparr>,
      JSON 200 \<lparr>Success = True, Data = Some (book_1\<lparr>Title := ''Foo''\<rparr>), Error = [],
                 Message = ''Book updated successfully''\<rparr>)"
  by (simp add: UpdateBook_def Atoi_1 no_fields_def TrimSpace_def isSpace_def
        db_UpdateBook_def GetBookByID_def select_book_1 build_updates_def sql_update_def
        fit_varchar_def store_1_def book_1_def book_2_def sql_select_by_id_def)

text \<open>The theorem at PUT \<open>{"available": false}\<close> on record 1 at engine time 300.\<close>

theorem UpdateBook_frame_witness:
  "Atoi ''1'' = Some 1 \<and> sql_select_by_id store_1 1 = Some book_1 \<and>
   UpdateBook store_1 300 ''1'' (Some (no_fields\<lparr>upAvailable := Some False\<rparr>)) =
     (store_1\<lparr>rows := [book_1\<lparr>Available := False, UpdatedAt := 300\<rparr>, book_2], writes := 1\<rparr>,
      JSON 200 \<lparr>Success = True,
                 Data = Some (book_1\<lparr>Available := False, UpdatedAt := 300\<rparr>),
                 Error = [], Message = ''Book updated successfully''\<rparr>) \<and>
   (\<exists>b'. Some (book_1\<lparr>Available := False, UpdatedAt := 300\<rparr>) = Some b' \<and>
      Title b' = Title book_1 \<and> Author b' = Author book_1 \<and>
      PublishedYear b' = PublishedYear book_1 \<and> Available b' = False \<and> UpdatedAt b' = 300)"
proof -
  have run: "UpdateBook store_1 300 ''1'' (Some (no_fields\<lparr>upAvailable := Some False\<rparr>)) =
     (store_1\<lparr>rows := [book_1\<lparr>Available := False, UpdatedAt := 300\<rparr>, book_2], writes := 1\<rparr>,
      JSON 200 \<lparr>Success = True,
                 Data = Some (book_1\<lparr>Available := False, UpdatedAt := 300\<rparr>),
                 Error = [], Message = ''Book updated successfully''\<rparr>)"
    by (simp add: UpdateBook_def Atoi_1 no_fields_def
          db_UpdateBook_def GetBookByID_def select_book_1 build_updates_def sql_update_def
          store_1_def book_1_def book_2_def sql_select_by_id_def)
  show ?thesis
    using UpdateBook_frame [OF Atoi_1 select_book_1 run] run Atoi_1 select_book_1
    by (simp add: no_fields_def build_updates_def)
qed

text \<open>
  C1 as stated fails: PUT \<open>{"title": " Foo "}\<close> on record 1, at the engine time 100 at
  which the record was last written, is accepted; the returned title is \<open>Foo\<close>, not the
  supplied value, and the update timestamp is 100 as before, so it did not advance.
\<close>

theorem UpdateBook_supplied_value_counterexample:
  "sql_select_by_id store_1 1 = Some book_1 \<and> UpdatedAt book_1 = 100 \<and>
   snd (UpdateBook store_1 100 ''1'' (Some (no_fields\<lparr>upTitle := Some '' Foo ''\<rparr>))) =
     JSON 200 \<lparr>Success = True,
                Data = Some \<lparr>ID = 1, Title = ''Foo'', Author = ''Robert C. Martin'',
                              PublishedYear = 2008, Available = True, CreatedAt = 100,
                              UpdatedAt = 100\<rparr>,
                Error = [], Message = ''Book updated successfully''\<rparr>"
  by (simp add: put_title_at_100 select_book_1) (simp add: book_1_def)

text \<open>
  C3, as amended. An accepted update of an existing record that supplies at least one
  field sends one write to the engine and sets the update timestamp of the record,
  stored and returned, to the engine's time at the write.
\<close>

theorem UpdateBook_refreshes_timestamp:
  assumes "Atoi idStr = Some i"
    and "sql_select_by_id db i = Some b"
    and "UpdateBook db now idStr (Some req) = (db', JSON 200 r)"
    and "upTitle req \<noteq> None \<or> upAuthor req \<noteq> None \<or> upPublishedYear req \<noteq> None \<or>
         upAvailable req \<noteq> None"
  shows "\<exists>b'. Data r = Some b' \<and> sql_select_by_id db' i = Some b' \<and> UpdatedAt b' = now \<and>
           writes db' = Suc (writes db)"
proof -
  have "build_updates req \<noteq> []"
    using assms(4) by (simp add: build_updates_Nil)
  then show ?thesis
    using UpdateBook_accepted [OF assms(1-3)] by auto
qed

lemma put_year_at_900:
  "UpdateBook store_1 900 ''1'' (Some (no_fields\<lparr>upPublishedYear := Some 2009\<rparr>)) =
     (store_1\<lparr>rows := [book_1\<lparr>PublishedYear := 2009, UpdatedAt := 900\<rparr>, book_2], writes := 1\<rparr>,
      JSON 200 \<lparr>Success = True,
                 Data = Some (book_1\<lparr>PublishedYear := 2009, UpdatedAt := 900\<rparr>),
                 Error = [], Message = ''Book updated successfully''\<rparr>)"
  by (simp add: UpdateBook_def Atoi_1 no_fields_def
        db_UpdateBook_def GetBookByID_def select_book_1 build_updates_def sql_update_def
        fit_year_def fit_int_def store_1_def book_1_def book_2_def sql_select_by_id_def)

text \<open>The theorem at PUT \<open>{"published_year": 2009}\<close> on record 1 at engine time 900.\<close>

theorem UpdateBook_refreshes_timestamp_witness:
  "Atoi ''1'' = Some 1 \<and> sql_select_by_id store_1 1 = Some book_1 \<and>
   UpdateBook store_1 900 ''1'' (Some (no_fields\<lparr>upPublishedYear := Some 2009\<rparr>)) =
     (store_1\<lparr>rows := [book_1\<lparr>PublishedYear := 2009, UpdatedAt := 900\<rparr>, book_2], writes := 1\<rparr>,
      JSON 200 \<lparr>Success = True,
                 Data = Some (book_1\<lparr>PublishedYear := 2009, UpdatedAt := 900\<rparr>),
                 Error = [], Message = ''Book updated successfully''\<rparr>) \<and>
   (\<exists>b'. Some (book_1\<lparr>PublishedYear := 2009, UpdatedAt := 900\<rparr>) = Some b' \<and>
      UpdatedAt b' = 900)"
proof -
  have some: "upTitle (no_fields\<lparr>upPublishedYear := Some 2009\<rparr>) \<noteq> None \<or>
              upAuthor (no_fields\<lparr>upPublishedYear := Some 2009\<rparr>) \<noteq> None \<or>
              upPublishedYear (no_fields\<lparr>upPublishedYear := Some 2009\<rparr>) \<noteq> None \<or>
              upAvailable (no_fields\<lparr>upPublishedYear := Some 2009\<rparr>) \<noteq> None"
    by simp
  show ?thesis
    using UpdateBook_refreshes_timestamp [OF Atoi_1 select_book_1 put_year_at_900 some]
      put_year_at_900 Atoi_1 select_book_1
    by simp
qed

lemma Atoi_2: "Atoi ''2'' = Some 2"
  by (simp add: Atoi_def isDigit_def digits_val_def)

text \<open>
  C3 as stated fails: a PUT that supplies no field, on record 2 at engine time 900, is
  accepted, and the record, stored and returned, keeps the update timestamp 200.
\<close>

theorem UpdateBook_no_fields_timestamp_counterexample:
  "sql_select_by_id store_1 2 = Some book_2 \<and> UpdatedAt book_2 = 200 \<and>
   UpdateBook store_1 900 ''2'' (Some no_fields) =
     (store_1, JSON 200 \<lparr>Success = True,
                Data = Some \<lparr>ID = 2, Title = ''Effective Go'', Author = ''The Go Team'',
                              PublishedYear = 2020, Available = True, CreatedAt = 200,
                              UpdatedAt = 200\<rparr>,
                Error = [], Message = ''Book updated successfully''\<rparr>)"
  by (simp add: UpdateBook_def Atoi_2 no_fields_def db_UpdateBook_def GetBookByID_def
        build_updates_def sql_select_by_id_def store_1_def book_1_def book_2_def)


lemma sql_update_fits:
  assumes "those (map (fit_assignment db) us) = Some fs"
    and "sql_select_by_id db i = Some b"
  shows "\<exists>d. sql_update db now us i = (d, Inr ()) \<and>
          sql_select_by_id d i = Some ((fold assign fs b)\<lparr>UpdatedAt := now\<rparr>)"
proof -
  have idf: "\<And>x. ID ((fold assign fs x)\<lparr>UpdatedAt := now\<rparr>) = ID x"
    by (simp add: ID_fold_assign)
  show ?thesis
    using assms find_map_same_id [of "\<lambda>x. (fold assign fs x)\<lparr>UpdatedAt := now\<rparr>" i "rows db", OF idf]
    by (simp add: sql_update_def sql_select_by_id_def)
qed

lemma those_build_updates:
  assumes "case upTitle req of None \<Rightarrow> True | Some t \<Rightarrow> fit_varchar 255 t \<noteq> None"
    and "case upAuthor req of None \<Rightarrow> True | Some a \<Rightarrow> fit_varchar 255 a \<noteq> None"
    and "case upPublishedYear req of None \<Rightarrow> True | Some y \<Rightarrow> 1000 \<le> y \<and> y \<le> 2100"
  shows "\<exists>fs. those (map (fit_assignment db) (build_updates req)) = Some fs"
  using assms
  by (cases "upTitle req"; cases "upAuthor req"; cases "upPublishedYear req";
      cases "upAvailable req")
     (auto simp: build_updates_def fit_year_def fit_int_def)

text \<open>A PUT that passes the checks and fits the columns is accepted.\<close>

lemma UpdateBook_accepts:
  assumes id: "Atoi idStr = Some i"
    and sel: "sql_select_by_id db i = Some b"
    and t: "case upTitle req of None \<Rightarrow> True
            | Some t \<Rightarrow> TrimSpace t \<noteq> [] \<and> length (TrimSpace t) \<le> 255"
    and a: "case upAuthor req of None \<Rightarrow> True
            | Some a \<Rightarrow> TrimSpace a \<noteq> [] \<and> length (TrimSpace a) \<le> 255"
    and y: "case upPublishedYear req of None \<Rightarrow> True | Some y \<Rightarrow> 1000 \<le> y \<and> y \<le> 2100"
  shows "\<exists>db' r. UpdateBook db now idStr (Some req) = (db', JSON 200 r)"
proof -
  define req' where "req' = req\<lparr>upTitle := map_option TrimSpace (upTitle req),
                                 upAuthor := map_option TrimSpace (upAuthor req)\<rparr>"
  have t': "case upTitle req' of None \<Rightarrow> True | Some t \<Rightarrow> fit_varchar 255 t \<noteq> None"
    using t by (cases "upTitle req") (simp_all add: req'_def fit_varchar_TrimSpace)
  have a': "case upAuthor req' of None \<Rightarrow> True | Some a \<Rightarrow> fit_varchar 255 a \<noteq> None"
    using a by (cases "upAuthor req") (simp_all add: req'_def fit_varchar_TrimSpace)
  have y': "case upPublishedYear req' of None \<Rightarrow> True | Some y \<Rightarrow> 1000 \<le> y \<and> y \<le> 2100"
    using y by (simp add: req'_def)
  obtain fs where fs: "those (map (fit_assignment db) (build_updates req')) = Some fs"
    using those_build_updates [OF t' a' y'] by blast
  obtain d where upd: "sql_update db now (build_updates req') i = (d, Inr ())"
    and sel': "sql_select_by_id d i = Some ((fold assign fs b)\<lparr>UpdatedAt := now\<rparr>)"
    using sql_update_fits [OF fs sel] by blast
  have "\<exists>d' b'. db_UpdateBook db now i req' = (d', Inr (Some b'))"
    using sel upd sel' by (simp add: db_UpdateBook_def GetBookByID_def Let_def)
  then obtain d' b' where acc: "db_UpdateBook db now i req' = (d', Inr (Some b'))"
    by blast
  have v: "\<not> (upTitle req \<noteq> None \<and> TrimSpace (the (upTitle req)) = [])"
    "\<not> (upAuthor req \<noteq> None \<and> TrimSpace (the (upAuthor req)) = [])"
    "\<not> (upPublishedYear req \<noteq> None \<and>
        (the (upPublishedYear req) < 1000 \<or> the (upPublishedYear req) > 2100))"
    using t a y by (auto split: option.splits)
  show ?thesis
    using id acc v by (auto simp: UpdateBook_def req'_def)
qed

section \<open>Delete\<close>

lemma find_filter_other: "find (\<lambda>b. ID b = i) (filter (\<lambda>b. ID b \<noteq> i) bs) = None"
  by (induction bs) simp_all

text \<open>
  C8. DELETE on the id of an existing record answers 200 with the success message and
  no data, and removes the rows with that id; in the store it leaves, GET of the same id
  answers 404 "Book not found", and so does a second DELETE, which changes nothing.
\<close>

theorem DeleteBook_then_not_found:
  assumes "Atoi idStr = Some i"
    and "sql_select_by_id db i = Some b"
    and "DeleteBook db idStr = (db', resp)"
  shows "resp = JSON 200 \<lparr>Success = True, Data = None, Error = [],
                           Message = ''Book deleted successfully''\<rparr> \<and>
         rows db' = filter (\<lambda>b. ID b \<noteq> i) (rows db) \<and>
         GetBook db' idStr =
           JSON 404 \<lparr>Success = False, Data = None, Error = ''Book not found'', Message = []\<rparr> \<and>
         DeleteBook db' idStr =
           (db', JSON 404 \<lparr>Success = False, Data = None, Error = ''Book not found'',
                            Message = []\<rparr>)"
proof -
  define d where "d = db\<lparr>rows := filter (\<lambda>b. ID b \<noteq> i) (rows db), writes := Suc (writes db)\<rparr>"
  have first: "DeleteBook db idStr =
      (d, JSON 200 \<lparr>Success = True, Data = None, Error = [],
                     Message = ''Book deleted successfully''\<rparr>)"
    using assms(1,2)
    by (simp add: DeleteBook_def db_DeleteBook_def GetBookByID_def sql_delete_def d_def)
  have gone: "sql_select_by_id d i = None"
    by (simp add: sql_select_by_id_def d_def find_filter_other)
  have eq: "db' = d" and r: "resp = JSON 200 \<lparr>Success = True, Data = None, Error = [],
                           Message = ''Book deleted successfully''\<rparr>"
    using first assms(3) by simp_all
  have get: "GetBook d idStr =
      JSON 404 \<lparr>Success = False, Data = None, Error = ''Book not found'', Message = []\<rparr>"
    using assms(1) gone by (simp add: GetBook_def GetBookByID_def sendErrorResponse_def)
  have second: "DeleteBook d idStr =
      (d, JSON 404 \<lparr>Success = False, Data = None, Error = ''Book not found'', Message = []\<rparr>)"
    using assms(1) gone
    by (simp add: DeleteBook_def db_DeleteBook_def GetBookByID_def sendErrorResponse_def)
  show ?thesis
    using eq r get second by (simp add: d_def)
qed

lemma delete_book_1:
  "DeleteBook store_1 ''1'' =
     (store_1\<lparr>rows := [book_2], writes := 1\<rparr>,
      JSON 200 \<lparr>Success = True, Data = None, Error = [],
                 Message = ''Book deleted successfully''\<rparr>)"
  by (simp add: DeleteBook_def Atoi_1 db_DeleteBook_def GetBookByID_def sql_select_by_id_def
        sql_delete_def store_1_def book_1_def book_2_def)

text \<open>The theorem at DELETE of record 1 of the sample store.\<close>

theorem DeleteBook_then_not_found_witness:
  "Atoi ''1'' = Some 1 \<and> sql_select_by_id store_1 1 = Some book_1 \<and>
   DeleteBook store_1 ''1'' =
     (store_1\<lparr>rows := [book_2], writes := 1\<rparr>,
      JSON 200 \<lparr>Success = True, Data = None, Error = [],
                 Message = ''Book deleted successfully''\<rparr>) \<and>
   GetBook (store_1\<lparr>rows := [book_2], writes := 1\<rparr>) ''1'' =
     JSON 404 \<lparr>Success = False, Data = None, Error = ''Book not found'', Message = []\<rparr> \<and>
   DeleteBook (store_1\<lparr>rows := [book_2], writes := 1\<rparr>) ''1'' =
     (store_1\<lparr>rows := [book_2], writes := 1\<rparr>,
      JSON 404 \<lparr>Success = False, Data = None, Error = ''Book not found'', Message = []\<rparr>)"
  using DeleteBook_then_not_found [OF Atoi_1 select_book_1 delete_book_1]
    Atoi_1 select_book_1 delete_book_1
  by blast

section \<open>Create\<close>

lemma find_new_row:
  assumes "list_all (\<lambda>b. ID b < i) bs" and "ID n = i"
  shows "find (\<lambda>b. ID b = i) (bs @ [n]) = Some n"
  using assms by (induction bs) auto

text \<open>
  C5. A creation request is valid when its trimmed title and author are non-empty and
  at most 255 characters long and its year is within 1000..2100. On a table that obeys
  its key constraint and whose counter is within the INT range, POST of a valid request
  answers 201 with the success message and the stored record: title and author are
  the trimmed inputs, the year is the input, availability is the input or true when
  omitted, and the two timestamps are equal. The record is the new last row and the one
  found under its id.
\<close>

theorem CreateBook_valid:
  assumes "wf_store db" and "next_id db \<le> 2147483647"
    and "TrimSpace (crTitle req) \<noteq> []" and "length (TrimSpace (crTitle req)) \<le> 255"
    and "TrimSpace (crAuthor req) \<noteq> []" and "length (TrimSpace (crAuthor req)) \<le> 255"
    and "1000 \<le> crPublishedYear req" and "crPublishedYear req \<le> 2100"
  shows "\<exists>db' b.
           CreateBook db now (Some req) =
             (db', JSON 201 \<lparr>Success = True, Data = Some b, Error = [],
                              Message = ''Book created successfully''\<rparr>) \<and>
           Title b = TrimSpace (crTitle req) \<and> Author b = TrimSpace (crAuthor req) \<and>
           PublishedYear b = crPublishedYear req \<and>
           Available b = (case crAvailable req of None \<Rightarrow> True | Some v \<Rightarrow> v) \<and>
           CreatedAt b = UpdatedAt b \<and> ID b = next_id db \<and>
           rows db' = rows db @ [b] \<and> sql_select_by_id db' (ID b) = Some b"
proof -
  define b where "b = \<lparr>ID = next_id db, Title = TrimSpace (crTitle req),
      Author = TrimSpace (crAuthor req), PublishedYear = crPublishedYear req,
      Available = (case crAvailable req of None \<Rightarrow> True | Some v \<Rightarrow> v),
      CreatedAt = now, UpdatedAt = now\<rparr>"
  define db' where "db' = db\<lparr>writes := Suc (writes db), rows := rows db @ [b],
      next_id := next_id db + 1\<rparr>"
  have lt: "list_all (\<lambda>x. ID x < next_id db) (rows db)" and pos: "0 < next_id db"
    using assms(1) by (auto simp: wf_store_def list_all_iff)
  have ins: "sql_insert db now (TrimSpace (crTitle req)) (TrimSpace (crAuthor req))
               (crPublishedYear req) (case crAvailable req of None \<Rightarrow> True | Some v \<Rightarrow> v) =
             (db', Inr (next_id db))"
    using assms(2,4,6,7,8) pos
    by (simp add: sql_insert_def fit_varchar_def fit_year_def fit_int_def db'_def b_def)
  have sel: "sql_select_by_id db' (next_id db) = Some b"
    using find_new_row [OF lt, of b] by (simp add: sql_select_by_id_def db'_def b_def)
  have "CreateBook db now (Some req) =
          (db', JSON 201 \<lparr>Success = True, Data = Some b, Error = [],
                           Message = ''Book created successfully''\<rparr>)"
    using assms(3,5,7,8) ins sel
    by (simp add: CreateBook_def db_CreateBook_def GetBookByID_def)
  moreover have "rows db' = rows db @ [b]"
    by (simp add: db'_def)
  ultimately show ?thesis
    using sel by (intro exI [of _ db'] exI [of _ b]) (simp add: b_def)
qed

lemma wf_store_1: "wf_store store_1"
  by (simp add: wf_store_def store_1_def book_1_def book_2_def)

text \<open>
  The theorem at POST \<open>{"title": "  Foo ", "author": "Bar", "published_year": 2020}\<close>
  at engine time 300.
\<close>

theorem CreateBook_valid_witness:
  "wf_store store_1 \<and> next_id store_1 \<le> 2147483647 \<and>
   TrimSpace ''  Foo '' \<noteq> [] \<and> length (TrimSpace ''  Foo '') \<le> 255 \<and>
   TrimSpace ''Bar'' \<noteq> [] \<and> length (TrimSpace ''Bar'') \<le> 255 \<and>
   CreateBook store_1 300
     (Some \<lparr>crTitle = ''  Foo '', crAuthor = ''Bar'', crPublishedYear = 2020,
            crAvailable = None\<rparr>) =
     (store_1\<lparr>rows := [book_1, book_2,
                 \<lparr>ID = 3, Title = ''Foo'', Author = ''Bar'', PublishedYear = 2020,
                  Available = True, CreatedAt = 300, UpdatedAt = 300\<rparr>],
               next_id := 4, writes := 1\<rparr>,
      JSON 201 \<lparr>Success = True,
                 Data = Some \<lparr>ID = 3, Title = ''Foo'', Author = ''Bar'', PublishedYear = 2020,
                               Available = True, CreatedAt = 300, UpdatedAt = 300\<rparr>,
                 Error = [], Message = ''Book created successfully''\<rparr>)"
proof -
  let ?req = "\<lparr>crTitle = ''  Foo '', crAuthor = ''Bar'', crPublishedYear = 2020,
               crAvailable = None\<rparr>"
  have t: "TrimSpace ''  Foo '' = ''Foo''" and a: "TrimSpace ''Bar'' = ''Bar''"
    by (simp_all add: TrimSpace_def isSpace_def)
  have n: "next_id store_1 \<le> 2147483647"
    by (simp add: store_1_def)
  have "\<exists>db' b. CreateBook store_1 300 (Some ?req) =
          (db', JSON 201 \<lparr>Success = True, Data = Some b, Error = [],
                           Message = ''Book created successfully''\<rparr>) \<and>
          Title b = TrimSpace (crTitle ?req) \<and> Author b = TrimSpace (crAuthor ?req) \<and>
          PublishedYear b = crPublishedYear ?req \<and>
          Available b = (case crAvailable ?req of None \<Rightarrow> True | Some v \<Rightarrow> v) \<and>
          CreatedAt b = UpdatedAt b \<and> ID b = next_id store_1 \<and>
          rows db' = rows store_1 @ [b] \<and> sql_select_by_id db' (ID b) = Some b"
    by (rule CreateBook_valid [OF wf_store_1 n]) (simp_all add: t a)
  moreover have "CreateBook store_1 300 (Some ?req) =
     (store_1\<lparr>rows := [book_1, book_2,
                 \<lparr>ID = 3, Title = ''Foo'', Author = ''Bar'', PublishedYear = 2020,
                  Available = True, CreatedAt = 300, UpdatedAt = 300\<rparr>],
               next_id := 4, writes := 1\<rparr>,
      JSON 201 \<lparr>Success = True,
                 Data = Some \<lparr>ID = 3, Title = ''Foo'', Author = ''Bar'', PublishedYear = 2020,
                               Available = True, CreatedAt = 300, UpdatedAt = 300\<rparr>,
                 Error = [], Message = ''Book created successfully''\<rparr>)"
    by (simp add: CreateBook_def t a db_CreateBook_def sql_insert_def fit_varchar_def
          fit_year_def fit_int_def GetBookByID_def sql_select_by_id_def store_1_def
          book_1_def book_2_def)
  ultimately show ?thesis
    using wf_store_1 n by (simp add: t a)
qed

text \<open>The key constraint and the counter are kept by every statement that writes.\<close>

lemma wf_store_empty:
  "wf_store \<lparr>rows = [], next_id = 1, year_check = c, coll_key = k, writes = 0\<rparr>"
  by (simp add: wf_store_def)

lemma wf_store_sql_insert:
  assumes run: "sql_insert db now t a y av = (d, r)" and wf: "wf_store db"
  shows "wf_store d"
proof -
  have same: "wf_store (db\<lparr>writes := Suc (writes db)\<rparr>)"
    using wf by (simp add: wf_store_def)
  have lt: "\<And>b. b \<in> set (rows db) \<Longrightarrow> 0 < ID b \<and> ID b < next_id db"
    using wf by (simp add: wf_store_def list_all_iff)
  have new: "wf_store (db\<lparr>writes := Suc (writes db), rows := rows db @ [n],
                          next_id := next_id db + 1\<rparr>)"
    if "ID n = next_id db" for n
  proof -
    have "ID n \<notin> ID ` set (rows db)"
      using lt that by force
    moreover have "\<And>b. b \<in> set (rows db) \<Longrightarrow> ID b < next_id db + 1"
      using lt by force
    ultimately show ?thesis
      using wf that lt by (simp add: wf_store_def list_all_iff)
  qed
  show ?thesis
    using run same new
    by (auto simp: sql_insert_def fit_int_def Let_def split: option.splits if_splits)
qed

lemma map_ID_update:
  "map (ID \<circ> (\<lambda>b. if ID b = i then (fold assign fs b)\<lparr>UpdatedAt := now\<rparr> else b)) bs =
   map ID bs"
  by (induction bs) (simp_all add: ID_fold_assign)

lemma wf_store_sql_update:
  "sql_update db now us i = (d, r) \<Longrightarrow> wf_store db \<Longrightarrow> wf_store d"
  by (auto simp: sql_update_def wf_store_def list_all_iff map_ID_update ID_fold_assign Let_def
           split: option.splits)

lemma wf_store_sql_delete:
  "sql_delete db i = (d, r) \<Longrightarrow> wf_store db \<Longrightarrow> wf_store d"
  by (auto simp: sql_delete_def wf_store_def list_all_iff distinct_map_filter)

lemma wf_store_db_CreateBook:
  assumes "db_CreateBook db now req = (d, r)" and "wf_store db"
  shows "wf_store d"
proof -
  obtain d1 r1 where ins: "sql_insert db now (crTitle req) (crAuthor req) (crPublishedYear req)
      (case crAvailable req of None \<Rightarrow> True | Some v \<Rightarrow> v) = (d1, r1)"
    by (cases "sql_insert db now (crTitle req) (crAuthor req) (crPublishedYear req)
      (case crAvailable req of None \<Rightarrow> True | Some v \<Rightarrow> v)") auto
  then have "d = d1"
    using assms(1) by (cases r1) (simp_all add: db_CreateBook_def)
  then show ?thesis
    using wf_store_sql_insert [OF ins assms(2)] by simp
qed

lemma wf_store_db_UpdateBook:
  assumes "db_UpdateBook db now i req = (d, r)" and "wf_store db"
  shows "wf_store d"
proof -
  obtain d1 r1 where upd: "sql_update db now (build_updates req) i = (d1, r1)"
    by (cases "sql_update db now (build_updates req) i") auto
  then have "d = db \<or> d = d1"
    using assms(1)
    by (cases r1; cases "sql_select_by_id db i")
       (simp_all add: db_UpdateBook_def GetBookByID_def Let_def split: if_splits)
  then show ?thesis
    using wf_store_sql_update [OF upd assms(2)] assms(2) by auto
qed

lemma wf_store_db_DeleteBook:
  assumes "db_DeleteBook db i = (d, r)" and "wf_store db"
  shows "wf_store d"
proof -
  obtain d1 r1 where del: "sql_delete db i = (d1, r1)"
    by (cases "sql_delete db i") auto
  then have "d = db \<or> d = d1"
    using assms(1)
    by (cases r1; cases "sql_select_by_id db i")
       (simp_all add: db_DeleteBook_def GetBookByID_def)
  then show ?thesis
    using wf_store_sql_delete [OF del assms(2)] assms(2) by auto
qed

lemma wf_store_CreateBook:
  assumes "wf_store db"
  shows "wf_store (fst (CreateBook db now body))"
proof (cases body)
  case None
  then show ?thesis using assms by (simp add: CreateBook_def)
next
  case (Some req)
  define req' where "req' = req\<lparr>crTitle := TrimSpace (crTitle req),
                                 crAuthor := TrimSpace (crAuthor req)\<rparr>"
  obtain d r where acc: "db_CreateBook db now req' = (d, r)"
    by (cases "db_CreateBook db now req'") auto
  have "fst (CreateBook db now body) = db \<or> fst (CreateBook db now body) = d"
    using Some acc by (cases r) (simp_all add: CreateBook_def req'_def)
  then show ?thesis
    using wf_store_db_CreateBook [OF acc assms] assms by auto
qed

lemma wf_store_UpdateBook:
  assumes "wf_store db"
  shows "wf_store (fst (UpdateBook db now idStr body))"
proof (cases "Atoi idStr")
  case None
  then show ?thesis using assms by (simp add: UpdateBook_def)
next
  case (Some i)
  note id = Some
  show ?thesis
  proof (cases body)
    case None
    then show ?thesis using assms id by (simp add: UpdateBook_def)
  next
    case (Some req)
    define req' where "req' = req\<lparr>upTitle := map_option TrimSpace (upTitle req),
                                   upAuthor := map_option TrimSpace (upAuthor req)\<rparr>"
    obtain d r where acc: "db_UpdateBook db now i req' = (d, r)"
      by (cases "db_UpdateBook db now i req'") auto
    have "fst (UpdateBook db now idStr body) = db \<or> fst (UpdateBook db now idStr body) = d"
      using Some id acc
      by (cases r) (auto simp: UpdateBook_def req'_def split: option.splits)
    then show ?thesis
      using wf_store_db_UpdateBook [OF acc assms] assms by auto
  qed
qed

lemma wf_store_DeleteBook:
  assumes "wf_store db"
  shows "wf_store (fst (DeleteBook db idStr))"
proof (cases "Atoi idStr")
  case None
  then show ?thesis using assms by (simp add: DeleteBook_def)
next
  case (Some i)
  obtain d r where acc: "db_DeleteBook db i = (d, r)"
    by (cases "db_DeleteBook db i") auto
  have "fst (DeleteBook db idStr) = d"
    using Some acc by (simp add: DeleteBook_def split: option.splits db_error.splits)
  then show ?thesis
    using wf_store_db_DeleteBook [OF acc assms] by simp
qed



section \<open>List and search\<close>







text \<open>
  Under weights that fold the case of the ASCII letters and nothing else, containing
  under the collation is containing as a case-insensitive substring.
\<close>

lemma coll_contains_ascii: "coll_contains ascii_key q s = ci_contains q s"
proof -
  have key: "map ascii_key xs = map of_char (map to_lower xs)" for xs
    by (simp add: ascii_key_def)
  have inj: "inj (of_char :: char \<Rightarrow> nat)"
    by (rule inj_of_char)
  show ?thesis
  proof
    assume "coll_contains ascii_key q s"
    then have "sublist (map of_char (map to_lower q) :: nat list)
                 (map of_char (map to_lower s))"
      unfolding coll_contains_def key .
    then obtain xs where xs: "map of_char (map to_lower q) = (map of_char xs :: nat list)"
      and sub: "sublist xs (map to_lower s)"
      using sublist_map_rightE by blast
    have "map to_lower q = xs"
      using xs inj_map_eq_map [OF inj] by blast
    then show "ci_contains q s"
      using sub by (simp add: ci_contains_def)
  next
    assume "ci_contains q s"
    then have "sublist (map (of_char :: char \<Rightarrow> nat) (map to_lower q))
                 (map of_char (map to_lower s))"
      unfolding ci_contains_def by (rule map_mono_sublist)
    then show "coll_contains ascii_key q s"
      unfolding coll_contains_def key .
  qed
qed

lemma foldl_append_book: "foldl append_book (Some bs) rs = Some (bs @ rs)"
  by (induction rs arbitrary: bs) (simp_all add: append_book_def)

lemma scan_rows_eq: "scan_rows rs = (if rs = [] then None else Some rs)"
  by (cases rs) (simp_all add: scan_rows_def append_book_def foldl_append_book)


lemma GetBooks_page:
  "GetBooks db pageStr limitStr q =
     (case limit_offset (parse_limit limitStr)
             (wrap64 (wrap64 (parse_page pageStr - 1) * parse_limit limitStr))
             (order_by_created_desc (matched_rows db (TrimSpace q))) of
        Inl e \<Rightarrow> sendErrorResponse 500 ''Failed to retrieve books''
      | Inr rs \<Rightarrow>
          JSONPage 200
            \<lparr>pgSuccess = True, pgData = scan_rows rs,
             pgPagination =
               \<lparr>Page = parse_page pageStr, Limit = parse_limit limitStr,
                Total = int (length (matched_rows db (TrimSpace q))),
                TotalPages = totalPages (int (length (matched_rows db (TrimSpace q))))
                               (parse_limit limitStr)\<rparr>,
             pgError = []\<rparr>)"
  by (simp add: GetBooks_def SearchBooks_def db_GetBooks_def matched_rows_def Let_def
        sql_count_all_def sql_count_like_def sql_select_page_def sql_select_like_page_def
      split: sum.splits)

lemma Atoi_Nil: "Atoi [] = None"
  by (simp add: Atoi_def)

lemma Atoi_range: "Atoi s = Some v \<Longrightarrow> - (2 ^ 63) \<le> v \<and> v \<le> 2 ^ 63 - 1"
  by (auto simp: Atoi_def Let_def split: if_splits)

lemma parse_page_spec: "parse_page s = spec_page s"
  by (cases s) (simp_all add: parse_page_def spec_page_def Atoi_Nil)

lemma parse_limit_spec: "parse_limit s = spec_limit s"
  by (cases s) (simp_all add: parse_limit_def spec_limit_def Atoi_Nil)

lemma parse_limit_range: "1 \<le> parse_limit s \<and> parse_limit s \<le> 100"
  by (simp add: parse_limit_def split: option.splits)

lemma parse_page_range: "1 \<le> parse_page s \<and> parse_page s \<le> 2 ^ 63 - 1"
  using Atoi_range [of s] by (auto simp: parse_page_def split: option.splits)

lemma parse_page_pos: "1 \<le> parse_page s"
  using parse_page_range [of s] by simp

lemma wrap64_page: "wrap64 (parse_page s - 1) = parse_page s - 1"
  using parse_page_range [of s] by (simp add: wrap64_def)

lemma totalPages_eq_div: "totalPages t l = - (- t div l)"
  by (simp add: totalPages_def ceiling_divide_eq_div)

lemma totalPages_bounds:
  assumes "0 < l"
  shows "t \<le> totalPages t l * l \<and> (totalPages t l - 1) * l < t"
proof -
  have l: "0 < real_of_int l" using assms by simp
  have "real_of_int t / real_of_int l \<le> real_of_int (totalPages t l)"
    by (simp add: totalPages_def)
  then have "real_of_int t \<le> real_of_int (totalPages t l) * real_of_int l"
    using l by (simp add: pos_divide_le_eq)
  then have a: "t \<le> totalPages t l * l"
    by (metis of_int_le_iff of_int_mult)
  have "real_of_int (totalPages t l) - 1 < real_of_int t / real_of_int l"
    unfolding totalPages_def by linarith
  then have "(real_of_int (totalPages t l) - 1) * real_of_int l < real_of_int t"
    using l by (simp add: pos_less_divide_eq)
  then have "real_of_int ((totalPages t l - 1) * l) < real_of_int t"
    by simp
  then have b: "(totalPages t l - 1) * l < t"
    by (simp only: of_int_less_iff)
  show ?thesis using a b by simp
qed



lemma TrimSpace_Nil: "TrimSpace [] = []"
  by (simp add: TrimSpace_def)




text \<open>What a list request is answered with, in every case.\<close>

lemma GetBooks_response:
  "GetBooks db pageStr limitStr q =
     (if wrap64 ((spec_page pageStr - 1) * spec_limit limitStr) < 0
      then sendErrorResponse 500 ''Failed to retrieve books''
      else JSONPage 200
             \<lparr>pgSuccess = True,
              pgData = scan_rows
                (take (nat (spec_limit limitStr))
                   (drop (nat (wrap64 ((spec_page pageStr - 1) * spec_limit limitStr)))
                      (order_by_created_desc (matched_rows db (TrimSpace q))))),
              pgPagination =
                \<lparr>Page = spec_page pageStr, Limit = spec_limit limitStr,
                 Total = int (length (matched_rows db (TrimSpace q))),
                 TotalPages = totalPages (int (length (matched_rows db (TrimSpace q))))
                                (spec_limit limitStr)\<rparr>,
              pgError = []\<rparr>)"
  using parse_limit_range [of limitStr]
  by (simp add: GetBooks_page wrap64_page limit_offset_def
        parse_page_spec [symmetric] parse_limit_spec [symmetric])

lemma wrap64_small: "0 \<le> x \<Longrightarrow> x < 2 ^ 63 \<Longrightarrow> wrap64 x = x"
  by (simp add: wrap64_def)

lemma GetBooks_no_overflow:
  assumes "(spec_page pageStr - 1) * spec_limit limitStr < 2 ^ 63"
  shows "\<exists>p. GetBooks db pageStr limitStr q = JSONPage 200 p"
proof -
  have "0 \<le> (spec_page pageStr - 1) * spec_limit limitStr"
    using parse_page_pos [of pageStr] parse_limit_range [of limitStr]
    by (simp add: parse_page_spec parse_limit_spec)
  then have "wrap64 ((spec_page pageStr - 1) * spec_limit limitStr) =
      (spec_page pageStr - 1) * spec_limit limitStr"
    using assms by (rule wrap64_small)
  then show ?thesis
    using \<open>0 \<le> (spec_page pageStr - 1) * spec_limit limitStr\<close>
    by (simp add: GetBooks_response)
qed


lemma GetBooks_answer:
  assumes "GetBooks db pageStr limitStr q = JSONPage st p"
  shows "st = 200 \<and>
         pgData p = scan_rows
           (take (nat (spec_limit limitStr))
             (drop (nat (wrap64 ((spec_page pageStr - 1) * spec_limit limitStr)))
                (order_by_created_desc (matched_rows db (TrimSpace q))))) \<and>
         pgPagination p =
           \<lparr>Page = spec_page pageStr, Limit = spec_limit limitStr,
            Total = int (length (matched_rows db (TrimSpace q))),
            TotalPages = totalPages (int (length (matched_rows db (TrimSpace q))))
                           (spec_limit limitStr)\<rparr>"
  using assms
  by (auto simp: GetBooks_response sendErrorResponse_def split: if_splits)









lemma Atoi_1_digit: "Atoi ''2'' = Some 2 \<and> Atoi ''4'' = Some 4 \<and> Atoi ''10'' = Some 10"
  by (simp add: Atoi_def isDigit_def digits_val_def)

lemma order_sample: "order_by_created_desc [book_1, book_2] = [book_2, book_1]"
  by (simp add: order_by_created_desc_def book_1_def book_2_def)



text \<open>
  Where the offset does not overflow, a page after the last one carries no record, with
  the total of every other page; its data is the \<open>nil\<close> slice, encoded as \<open>null\<close>.
\<close>

lemma GetBooks_beyond_last_page:
  assumes fits: "(spec_page pageStr - 1) * spec_limit limitStr < 2 ^ 63"
    and run: "GetBooks db pageStr limitStr q = JSONPage st p"
    and beyond: "TotalPages (pgPagination p) < Page (pgPagination p)"
  shows "pgData p = None \<and>
         Total (pgPagination p) = int (length (matched_rows db (TrimSpace q)))"
proof -
  let ?page = "spec_page pageStr" and ?limit = "spec_limit limitStr"
  let ?T = "int (length (matched_rows db (TrimSpace q)))"
  note ans = GetBooks_answer [OF run]
  have l: "0 < ?limit"
    using parse_limit_range [of limitStr] by (simp add: parse_limit_spec)
  have p0: "0 \<le> ?page - 1"
    using parse_page_pos [of pageStr] by (simp add: parse_page_spec)
  have nn: "0 \<le> (?page - 1) * ?limit"
    using p0 l by simp
  then have w2: "wrap64 ((?page - 1) * ?limit) = (?page - 1) * ?limit"
    using fits by (rule wrap64_small)
  have "totalPages ?T ?limit \<le> ?page - 1"
    using beyond ans by simp
  then have "totalPages ?T ?limit * ?limit \<le> (?page - 1) * ?limit"
    using l by (intro mult_right_mono) simp_all
  then have "?T \<le> (?page - 1) * ?limit"
    using totalPages_bounds [OF l, of ?T] by linarith
  then have "length (order_by_created_desc (matched_rows db (TrimSpace q))) \<le>
      nat ((?page - 1) * ?limit)"
    by (simp add: order_by_created_desc_def)
  then show ?thesis
    using ans by (simp add: w2 scan_rows_eq)
qed

text \<open>Page 2 of the two sample records at limit 10: no record, and the data is \<open>null\<close>.\<close>

lemma GetBooks_page_2_null:
  "GetBooks store_1 ''2'' ''10'' [] =
     JSONPage 200
       \<lparr>pgSuccess = True, pgData = None,
        pgPagination = \<lparr>Page = 2, Limit = 10, Total = 2, TotalPages = 1\<rparr>,
        pgError = []\<rparr>"
proof -
  have m: "matched_rows store_1 [] = [book_1, book_2]"
    by (simp add: matched_rows_def store_1_def)
  have pp: "spec_page ''2'' = 2" and pl: "spec_limit ''10'' = 10"
    by (simp_all add: spec_page_def spec_limit_def Atoi_1_digit)
  show ?thesis
    by (simp add: GetBooks_response TrimSpace_Nil m order_sample pp pl wrap64_def
          scan_rows_eq totalPages_eq_div)
qed

lemma Atoi_big: "Atoi ''4611686018427387905'' = Some 4611686018427387905"
  by (simp add: Atoi_def isDigit_def digits_val_def)

text \<open>
  C7 fails on the code. With \<open>page=4611686018427387905&limit=4\<close> the offset
  \<open>(page - 1) * limit\<close> is \<open>2 ^ 64\<close>, which wraps to 0 in a 64-bit \<open>int\<close>: the
  response reports page 4611686018427387905 of 1 and carries both records. Lemma
  \<open>GetBooks_beyond_last_page\<close> shows what a request whose offset does not overflow is
  answered with: no record and the same total, the data being \<open>null\<close> and not an array.
\<close>

theorem GetBooks_page_overflow:
  "GetBooks store_1 ''4611686018427387905'' ''4'' [] =
     JSONPage 200
       \<lparr>pgSuccess = True, pgData = Some [book_2, book_1],
        pgPagination = \<lparr>Page = 4611686018427387905, Limit = 4, Total = 2, TotalPages = 1\<rparr>,
        pgError = []\<rparr>"
proof -
  have m: "matched_rows store_1 [] = [book_1, book_2]"
    by (simp add: matched_rows_def store_1_def)
  have pp: "spec_page ''4611686018427387905'' = 4611686018427387905"
    by (simp add: spec_page_def Atoi_big)
  have pl: "spec_limit ''4'' = 4"
    by (simp add: spec_limit_def Atoi_1_digit)
  show ?thesis
    by (simp add: GetBooks_response TrimSpace_Nil m order_sample pp pl wrap64_def
          scan_rows_eq totalPages_eq_div)
qed

section \<open>The bounds on title and author\<close>

lemma fit_varchar_bounds:
  assumes "fit_varchar n s = Some s'"
  shows "length s' \<le> n" and "s \<noteq> [] \<Longrightarrow> 0 < n \<Longrightarrow> s' \<noteq> []"
  using assms by (auto simp: fit_varchar_def split: if_splits)

lemma sql_insert_rows:
  assumes run: "sql_insert db now t a y av = (d, r)" and "t \<noteq> []" and "a \<noteq> []"
  shows "rows d = rows db \<or> (\<exists>b. rows d = rows db @ [b] \<and> title_author_ok b)"
proof (cases "fit_varchar 255 t")
  case None
  then show ?thesis using run by (auto simp: sql_insert_def)
next
  case t': (Some t')
  show ?thesis
  proof (cases "fit_varchar 255 a")
    case None
    then show ?thesis using run t' by (auto simp: sql_insert_def)
  next
    case a': (Some a')
    have "t' \<noteq> []" "length t' \<le> 255" "a' \<noteq> []" "length a' \<le> 255"
      using fit_varchar_bounds [OF t'] fit_varchar_bounds [OF a'] assms(2,3) by simp_all
    then show ?thesis
      using run t' a'
      by (auto simp: sql_insert_def title_author_ok_def Let_def split: option.splits)
  qed
qed

lemma sql_insert_refused:
  assumes "fit_varchar 255 t = None \<or> fit_varchar 255 a = None"
  shows "sql_insert db now t a y av = (db\<lparr>writes := Suc (writes db)\<rparr>, Inl QueryFailed)"
  using assms by (auto simp: sql_insert_def Let_def split: option.splits)

lemma CreateBook_rows:
  "rows (fst (CreateBook db now body)) = rows db \<or>
   (\<exists>b. rows (fst (CreateBook db now body)) = rows db @ [b] \<and> title_author_ok b)"
proof (cases body)
  case None
  then show ?thesis by (simp add: CreateBook_def)
next
  case (Some req)
  show ?thesis
  proof (cases "TrimSpace (crTitle req) = [] \<or> TrimSpace (crAuthor req) = [] \<or>
                crPublishedYear req < 1000 \<or> crPublishedYear req > 2100")
    case True
    then show ?thesis using Some by (auto simp: CreateBook_def)
  next
    case False
    define av where "av = (case crAvailable req of None \<Rightarrow> True | Some v \<Rightarrow> v)"
    obtain d r where ins: "sql_insert db now (TrimSpace (crTitle req)) (TrimSpace (crAuthor req))
        (crPublishedYear req) av = (d, r)"
      by (cases "sql_insert db now (TrimSpace (crTitle req)) (TrimSpace (crAuthor req))
        (crPublishedYear req) av") auto
    have "fst (CreateBook db now body) = d"
      using Some False ins
      by (cases r) (auto simp: CreateBook_def db_CreateBook_def av_def GetBookByID_def)
    then show ?thesis
      using sql_insert_rows [OF ins] False by simp
  qed
qed

lemma CreateBook_too_long:
  assumes "255 < length (TrimSpace (crTitle req)) \<or> 255 < length (TrimSpace (crAuthor req))"
  shows "rows (fst (CreateBook db now (Some req))) = rows db \<and>
         (\<exists>st msg. snd (CreateBook db now (Some req)) = sendErrorResponse st msg)"
proof (cases "TrimSpace (crTitle req) = [] \<or> TrimSpace (crAuthor req) = [] \<or>
              crPublishedYear req < 1000 \<or> crPublishedYear req > 2100")
  case True
  then show ?thesis by (auto simp: CreateBook_def)
next
  case False
  have "fit_varchar 255 (TrimSpace (crTitle req)) = None \<or>
        fit_varchar 255 (TrimSpace (crAuthor req)) = None"
    using assms by (auto simp: fit_varchar_TrimSpace)
  then have "sql_insert db now (TrimSpace (crTitle req)) (TrimSpace (crAuthor req))
        (crPublishedYear req) (case crAvailable req of None \<Rightarrow> True | Some v \<Rightarrow> v) =
      (db\<lparr>writes := Suc (writes db)\<rparr>, Inl QueryFailed)"
    by (rule sql_insert_refused)
  then have "CreateBook db now (Some req) =
      (db\<lparr>writes := Suc (writes db)\<rparr>, sendErrorResponse 500 ''Failed to create book'')"
    using False by (simp add: CreateBook_def db_CreateBook_def)
  then show ?thesis by auto
qed

text \<open>An UPDATE whose strings are not empty keeps the bounds of every row.\<close>

lemma sql_update_rows:
  assumes run: "sql_update db now (build_updates req) i = (d, r)"
    and ok: "list_all title_author_ok (rows db)"
    and t: "upTitle req \<noteq> Some []" and a: "upAuthor req \<noteq> Some []"
  shows "list_all title_author_ok (rows d)"
proof (cases "those (map (fit_assignment db) (build_updates req))")
  case None
  then show ?thesis using run ok by (auto simp: sql_update_def)
next
  case fits: (Some fs)
  have keep: "title_author_ok ((fold assign fs b)\<lparr>UpdatedAt := now\<rparr>)"
    if b: "title_author_ok b" for b
  proof -
    have "Title (fold assign fs b) \<noteq> [] \<and> length (Title (fold assign fs b)) \<le> 255"
    proof (cases "upTitle req")
      case None
      then show ?thesis
        using fitted_fields(1) [OF fits, of b] b by (simp add: title_author_ok_def)
    next
      case (Some s)
      then obtain s' where f: "fit_varchar 255 s = Some s'"
        using fitted_strings(1) [OF fits] by auto
      have "s \<noteq> []" using t Some by simp
      then show ?thesis
        using fitted_fields(1) [OF fits, of b] Some f fit_varchar_bounds [OF f] by simp
    qed
    moreover
    have "Author (fold assign fs b) \<noteq> [] \<and> length (Author (fold assign fs b)) \<le> 255"
    proof (cases "upAuthor req")
      case None
      then show ?thesis
        using fitted_fields(2) [OF fits, of b] b by (simp add: title_author_ok_def)
    next
      case (Some s)
      then obtain s' where f: "fit_varchar 255 s = Some s'"
        using fitted_strings(2) [OF fits] by auto
      have "s \<noteq> []" using a Some by simp
      then show ?thesis
        using fitted_fields(2) [OF fits, of b] Some f fit_varchar_bounds [OF f] by simp
    qed
    ultimately show ?thesis by (simp add: title_author_ok_def)
  qed
  have "rows d =
      map (\<lambda>b. if ID b = i then (fold assign fs b)\<lparr>UpdatedAt := now\<rparr> else b) (rows db)"
    using run fits by (auto simp: sql_update_def)
  then show ?thesis
    using ok keep by (auto simp: list_all_iff)
qed

lemma db_UpdateBook_rows:
  assumes run: "db_UpdateBook db now i req = (d, r)"
    and ok: "list_all title_author_ok (rows db)"
    and t: "upTitle req \<noteq> Some []" and a: "upAuthor req \<noteq> Some []"
  shows "list_all title_author_ok (rows d)"
proof -
  obtain d1 r1 where upd: "sql_update db now (build_updates req) i = (d1, r1)"
    by (cases "sql_update db now (build_updates req) i") auto
  then have "d = db \<or> d = d1"
    using run
    by (cases r1; cases "sql_select_by_id db i")
       (simp_all add: db_UpdateBook_def GetBookByID_def Let_def split: if_splits)
  then show ?thesis
    using sql_update_rows [OF upd ok t a] ok by auto
qed

lemma UpdateBook_rows:
  assumes ok: "list_all title_author_ok (rows db)"
  shows "list_all title_author_ok (rows (fst (UpdateBook db now idStr body)))"
proof (cases "Atoi idStr")
  case None
  then show ?thesis using ok by (simp add: UpdateBook_def)
next
  case (Some i)
  note id = Some
  show ?thesis
  proof (cases body)
    case None
    then show ?thesis using ok id by (simp add: UpdateBook_def)
  next
    case (Some req)
    define req' where "req' = req\<lparr>upTitle := map_option TrimSpace (upTitle req),
                                   upAuthor := map_option TrimSpace (upAuthor req)\<rparr>"
    show ?thesis
    proof (cases "(upTitle req \<noteq> None \<and> TrimSpace (the (upTitle req)) = []) \<or>
                  (upAuthor req \<noteq> None \<and> TrimSpace (the (upAuthor req)) = []) \<or>
                  (upPublishedYear req \<noteq> None \<and>
                    (the (upPublishedYear req) < 1000 \<or> the (upPublishedYear req) > 2100))")
      case True
      then have "fst (UpdateBook db now idStr body) = db"
        using Some id by (auto simp: UpdateBook_def)
      then show ?thesis using ok by simp
    next
      case False
      obtain d r where acc: "db_UpdateBook db now i req' = (d, r)"
        by (cases "db_UpdateBook db now i req'") auto
      have t: "upTitle req' \<noteq> Some []" and a: "upAuthor req' \<noteq> Some []"
        using False by (auto simp: req'_def)
      have "fst (UpdateBook db now idStr body) = d"
        using Some id acc False
        by (cases r) (auto simp: UpdateBook_def req'_def split: option.splits)
      then show ?thesis
        using db_UpdateBook_rows [OF acc ok t a] by simp
    qed
  qed
qed

text \<open>
  C9. What creation and update store keeps title and author non-empty and at most 255
  characters long. A POST leaves the rows as they are or adds one row that meets the
  bounds; when every row meets them before a POST or a PUT, every row does after it;
  and a POST whose trimmed title or author is longer than 255 characters adds no row and
  is answered with an error. The handler checks only for emptiness: the length is
  refused by the VARCHAR(255) columns, and the answer is then 500.
\<close>

theorem stored_title_author_bounds:
  "(rows (fst (CreateBook db now body)) = rows db \<or>
    (\<exists>b. rows (fst (CreateBook db now body)) = rows db @ [b] \<and> title_author_ok b)) \<and>
   (list_all title_author_ok (rows db) \<longrightarrow>
      list_all title_author_ok (rows (fst (CreateBook db now body))) \<and>
      list_all title_author_ok (rows (fst (UpdateBook db now idStr ubody)))) \<and>
   (255 < length (TrimSpace (crTitle req)) \<or> 255 < length (TrimSpace (crAuthor req)) \<longrightarrow>
      rows (fst (CreateBook db now (Some req))) = rows db \<and>
      (\<exists>st msg. snd (CreateBook db now (Some req)) = sendErrorResponse st msg))"
proof -
  have c: "list_all title_author_ok (rows (fst (CreateBook db now body)))"
    if "list_all title_author_ok (rows db)"
    using CreateBook_rows [of db now body] that by auto
  show ?thesis
    using CreateBook_rows [of db now body] c UpdateBook_rows [of db now idStr ubody]
      CreateBook_too_long [of req db now]
    by blast
qed

text \<open>
  The theorem at a POST with a title of 256 characters, and at PUT \<open>{"title": " Foo "}\<close>
  on record 1.
\<close>

theorem stored_title_author_bounds_witness:
  "list_all title_author_ok (rows store_1) \<and>
   255 < length (TrimSpace long_title) \<and>
   CreateBook store_1 300
     (Some \<lparr>crTitle = long_title, crAuthor = ''Bar'', crPublishedYear = 2020,
            crAvailable = None\<rparr>) =
     (store_1\<lparr>writes := 1\<rparr>,
      JSON 500 \<lparr>Success = False, Data = None, Error = ''Failed to create book'',
                 Message = []\<rparr>) \<and>
   list_all title_author_ok
     (rows (fst (UpdateBook store_1 300 ''1'' (Some (no_fields\<lparr>upTitle := Some '' Foo ''\<rparr>)))))"
proof -
  let ?req = "\<lparr>crTitle = long_title, crAuthor = ''Bar'', crPublishedYear = 2020,
               crAvailable = None\<rparr>"
  have ok: "list_all title_author_ok (rows store_1)"
    by (simp add: store_1_def book_1_def book_2_def title_author_ok_def)
  have t: "TrimSpace long_title = long_title"
    by (simp add: TrimSpace_def long_title_def isSpace_def)
  have len: "255 < length (TrimSpace long_title)"
    by (simp add: t) (simp add: long_title_def)
  have a: "TrimSpace ''Bar'' = ''Bar''"
    by (simp add: TrimSpace_def isSpace_def)
  have ne: "long_title \<noteq> []"
    by (simp add: long_title_def)
  have fit: "fit_varchar 255 long_title = None"
    using fit_varchar_TrimSpace [of 255 long_title] len by (simp add: t)
  have run: "CreateBook store_1 300 (Some ?req) =
     (store_1\<lparr>writes := 1\<rparr>,
      JSON 500 \<lparr>Success = False, Data = None, Error = ''Failed to create book'',
                 Message = []\<rparr>)"
    using ne
    by (simp add: CreateBook_def t a db_CreateBook_def sql_insert_def fit
          sendErrorResponse_def store_1_def)
  have len': "255 < length (TrimSpace (crTitle ?req)) \<or> 255 < length (TrimSpace (crAuthor ?req))"
    using len by simp
  show ?thesis
    using stored_title_author_bounds
      [of store_1 300 "Some ?req" "''1''" "Some (no_fields\<lparr>upTitle := Some '' Foo ''\<rparr>)" ?req]
      ok len run
    by simp
qed

end
